theory Spec2Isabelle
  imports Main
begin

section \<open>Authentication and account lockout of the content backend\<close>

text \<open>
  The development embeds \<^verbatim>\<open>src/routes/auth.py\<close>: the credential validators, the
  password hashing wrappers and the handlers \<^verbatim>\<open>register\<close>, \<^verbatim>\<open>login\<close> and
  \<^verbatim>\<open>change_password\<close>, run against the in-memory store of
  \<^verbatim>\<open>src/models/database.py\<close> (the list \<^verbatim>\<open>db.users\<close> of user dictionaries).
  Every handler tests \<^verbatim>\<open>hasattr(db, 'users')\<close> and takes the list branch when it
  holds; that is the branch modelled here.
\<close>

subsection \<open>Python strings, bytes and time\<close>

text \<open>
  A Python \<^verbatim>\<open>str\<close> is a sequence of Unicode code points, \<^verbatim>\<open>len\<close> counts code
  points, and \<^verbatim>\<open>bytes\<close> is a sequence of octets. Both are lists of naturals here.
  The literals of the source are written as HOL strings and turned into code points by
  \<open>ustr\<close>. A \<^verbatim>\<open>datetime\<close> is a number of microseconds.
\<close>

type_synonym pystr = "nat list"
type_synonym bytes = "nat list"
type_synonym time = int

definition ustr :: "string \<Rightarrow> pystr" where
  "ustr s = map of_char s"

definition timedelta_minutes :: "int \<Rightarrow> int" where
  "timedelta_minutes m = m * 60 * 1000000"

definition timedelta_hours :: "int \<Rightarrow> int" where
  "timedelta_hours h = h * 3600 * 1000000"

subsection \<open>Exceptions and the libraries outside the repository\<close>

datatype exn =
    UnicodeEncodeError nat
  | KeyError string
  | TypeError string
  | LibraryError string

text \<open>
  What the handlers call but the repository does not define is a parameter: the Unicode
  tables of the interpreter beyond ASCII (decimal digits for \<^verbatim>\<open>\d\<close>, white space for
  \<^verbatim>\<open>str.strip\<close>, lower-casing for \<^verbatim>\<open>str.lower\<close>), the two functions of the
  \<^verbatim>\<open>bcrypt\<close> package and \<^verbatim>\<open>create_access_token\<close> of flask_jwt_extended. A library
  call may raise, so it returns a sum with the exception on the left.
\<close>

record pylib =
  unicode_isdecimal :: "nat \<Rightarrow> bool"
  unicode_isspace :: "nat \<Rightarrow> bool"
  unicode_lower :: "pystr \<Rightarrow> pystr"
  bcrypt_hashpw :: "bytes \<Rightarrow> bytes \<Rightarrow> exn + bytes"
  bcrypt_checkpw :: "bytes \<Rightarrow> bytes \<Rightarrow> exn + bool"
  create_access_token :: "pystr \<Rightarrow> int \<Rightarrow> exn + pystr"

subsection \<open>Character classes of the regular expressions\<close>

definition is_upper :: "nat \<Rightarrow> bool" where
  "is_upper c = (65 \<le> c \<and> c \<le> 90)"

definition is_lower :: "nat \<Rightarrow> bool" where
  "is_lower c = (97 \<le> c \<and> c \<le> 122)"

definition is_ascii_digit :: "nat \<Rightarrow> bool" where
  "is_ascii_digit c = (48 \<le> c \<and> c \<le> 57)"

text \<open>
  \<^verbatim>\<open>\d\<close> in a \<^verbatim>\<open>str\<close> pattern matches every Unicode decimal digit: the ASCII
  digits, and beyond ASCII whatever the interpreter's table says.
\<close>

definition is_digit :: "pylib \<Rightarrow> nat \<Rightarrow> bool" where
  "is_digit lib c = (if c < 128 then is_ascii_digit c else unicode_isdecimal lib c)"

text \<open>\<^verbatim>\<open>re.search\<close> of a one-character class: some character of the string is in it.\<close>

definition re_search :: "(nat \<Rightarrow> bool) \<Rightarrow> pystr \<Rightarrow> bool" where
  "re_search cls s = list_ex cls s"

subsection \<open>validate\_password\<close>

definition validate_password :: "pylib \<Rightarrow> pystr \<Rightarrow> bool \<times> string" where
  "validate_password lib password =
     (if length password < 8 then
        (False, ''Password must be at least 8 characters long'')
      else if \<not> re_search is_upper password then
        (False, ''Password must contain at least one uppercase letter'')
      else if \<not> re_search is_lower password then
        (False, ''Password must contain at least one lowercase letter'')
      else if \<not> re_search (is_digit lib) password then
        (False, ''Password must contain at least one number'')
      else (True, ''Password is valid''))"

subsection \<open>validate\_email\<close>

text \<open>
  The pattern is
  \<^verbatim>\<open>^[a-zA-Z0-9._%+-]+@[a-zA-Z0-9.-]+\.[a-zA-Z]{2,}$\<close>, applied with
  \<^verbatim>\<open>re.match\<close>. Neither class contains \<^verbatim>\<open>@\<close>, so the local part is the longest
  prefix in its class and the next character must be \<^verbatim>\<open>@\<close>. Without the MULTILINE
  flag \<^verbatim>\<open>$\<close> matches at the end of the string and also just before a newline that
  ends the string. The last label is alphabetic, so it is the longest alphabetic suffix
  of what precedes that point, the character before it is the dot, and what lies between
  \<^verbatim>\<open>@\<close> and that dot is a non-empty run of the domain class.
\<close>

definition is_alpha :: "nat \<Rightarrow> bool" where
  "is_alpha c = (is_upper c \<or> is_lower c)"

definition email_local_char :: "nat \<Rightarrow> bool" where
  "email_local_char c =
     (is_alpha c \<or> is_ascii_digit c \<or> c = 46 \<or> c = 95 \<or> c = 37 \<or> c = 43 \<or> c = 45)"

definition email_domain_char :: "nat \<Rightarrow> bool" where
  "email_domain_char c = (is_alpha c \<or> is_ascii_digit c \<or> c = 46 \<or> c = 45)"

definition match_domain :: "pystr \<Rightarrow> bool" where
  "match_domain s =
     (let body = (if s \<noteq> [] \<and> last s = 10 then butlast s else s);
          tld = takeWhile is_alpha (rev body);
          before = dropWhile is_alpha (rev body)
      in 2 \<le> length tld \<and>
         (case before of
            [] \<Rightarrow> False
          | d # host \<Rightarrow> d = 46 \<and> host \<noteq> [] \<and> list_all email_domain_char host))"

definition validate_email :: "pystr \<Rightarrow> bool" where
  "validate_email email =
     (takeWhile email_local_char email \<noteq> [] \<and>
      (case dropWhile email_local_char email of
         [] \<Rightarrow> False
       | c # rest \<Rightarrow> c = 64 \<and> match_domain rest))"

subsection \<open>str.lower, str.strip, str.encode, str\<close>

text \<open>
  On a string of ASCII characters \<^verbatim>\<open>lower\<close> maps A-Z to a-z; on any other string it
  is the interpreter's Unicode lower-casing. \<^verbatim>\<open>strip\<close> removes leading and trailing
  white space: the ASCII characters 9-13, 28-31 and 32, and beyond ASCII what the
  interpreter's table says.
\<close>

definition ascii_lower :: "nat \<Rightarrow> nat" where
  "ascii_lower c = (if is_upper c then c + 32 else c)"

definition py_lower :: "pylib \<Rightarrow> pystr \<Rightarrow> pystr" where
  "py_lower lib s = (if list_all (\<lambda>c. c < 128) s then map ascii_lower s else unicode_lower lib s)"

definition is_space :: "pylib \<Rightarrow> nat \<Rightarrow> bool" where
  "is_space lib c =
     (if c < 128 then (9 \<le> c \<and> c \<le> 13) \<or> (28 \<le> c \<and> c \<le> 32) else unicode_isspace lib c)"

definition py_strip :: "pylib \<Rightarrow> pystr \<Rightarrow> pystr" where
  "py_strip lib s = rev (dropWhile (is_space lib) (rev (dropWhile (is_space lib) s)))"

text \<open>The normalisation both handlers apply: \<^verbatim>\<open>email.lower().strip()\<close>.\<close>

definition normalize_email :: "pylib \<Rightarrow> pystr \<Rightarrow> pystr" where
  "normalize_email lib email = py_strip lib (py_lower lib email)"

text \<open>
  \<^verbatim>\<open>s.encode('utf-8')\<close> raises UnicodeEncodeError on a surrogate code point
  (U+D800 to U+DFFF), which a \<^verbatim>\<open>str\<close> parsed from JSON can hold.
\<close>

definition utf8_char :: "nat \<Rightarrow> exn + bytes" where
  "utf8_char c =
     (if c < 128 then Inr [c]
      else if c < 2048 then Inr [192 + c div 64, 128 + c mod 64]
      else if 55296 \<le> c \<and> c \<le> 57343 then Inl (UnicodeEncodeError c)
      else if c < 65536 then
        Inr [224 + c div 4096, 128 + (c div 64) mod 64, 128 + c mod 64]
      else
        Inr [240 + c div 262144, 128 + (c div 4096) mod 64, 128 + (c div 64) mod 64,
             128 + c mod 64])"

fun encode_utf8 :: "pystr \<Rightarrow> exn + bytes" where
  "encode_utf8 [] = Inr []"
| "encode_utf8 (c # cs) =
     (case utf8_char c of
        Inl e \<Rightarrow> Inl e
      | Inr b \<Rightarrow> (case encode_utf8 cs of Inl e \<Rightarrow> Inl e | Inr bs \<Rightarrow> Inr (b @ bs)))"

text \<open>\<^verbatim>\<open>str(n)\<close> of a non-negative integer: its decimal digits.\<close>

function str_nat :: "nat \<Rightarrow> pystr" where
  "str_nat n = (if n < 10 then [48 + n] else str_nat (n div 10) @ [48 + n mod 10])"
  by pat_completeness auto
termination
  by (relation "measure id") auto

declare str_nat.simps [simp del]

subsection \<open>hash\_password and check\_password\<close>

text \<open>
  \<^verbatim>\<open>bcrypt.gensalt()\<close> draws fresh randomness; the salt it returns is an argument of
  the model. Neither function catches an exception.
\<close>

definition hash_password :: "pylib \<Rightarrow> bytes \<Rightarrow> pystr \<Rightarrow> exn + bytes" where
  "hash_password lib salt password =
     (case encode_utf8 password of
        Inl e \<Rightarrow> Inl e
      | Inr pw \<Rightarrow> bcrypt_hashpw lib pw salt)"

definition check_password :: "pylib \<Rightarrow> pystr \<Rightarrow> bytes \<Rightarrow> exn + bool" where
  "check_password lib password hashed =
     (case encode_utf8 password of
        Inl e \<Rightarrow> Inl e
      | Inr pw \<Rightarrow> bcrypt_checkpw lib pw hashed)"

subsection \<open>The user store\<close>

text \<open>
  A user dictionary. \<^verbatim>\<open>register\<close> writes every key; \<^verbatim>\<open>create_user\<close> of
  \<^verbatim>\<open>routes/users.py\<close> writes no \<^verbatim>\<open>password\<close>, \<^verbatim>\<open>failed_login_attempts\<close> or
  \<^verbatim>\<open>locked_until\<close>, and \<^verbatim>\<open>get_users\<close> pops \<^verbatim>\<open>password\<close>, so these three may be
  missing: \<open>None\<close> is the missing key. For \<^verbatim>\<open>locked_until\<close> and \<^verbatim>\<open>last_login\<close>
  \<open>None\<close> is also Python's \<^verbatim>\<open>None\<close>, which \<^verbatim>\<open>user.get('locked_until')\<close> does not
  tell from a missing key. The key \<^verbatim>\<open>_id\<close> is the field \<open>uid\<close>. Values have the
  types \<^verbatim>\<open>register\<close> gives them.
\<close>

record user =
  uid :: pystr
  name :: pystr
  email :: pystr
  password :: "bytes option"
  user_type :: pystr
  auth_method :: pystr
  status :: pystr
  created_at :: time
  last_login :: "time option"
  failed_login_attempts :: "int option"
  locked_until :: "time option"

text \<open>
  \<^verbatim>\<open>next((i for i, u in enumerate(db.users) if ...), None)\<close>: the index of the first
  user that satisfies the test. \<^verbatim>\<open>next((u for u in db.users if ...), None)\<close> is
  \<open>find\<close> of the list library.
\<close>

fun first_index :: "('a \<Rightarrow> bool) \<Rightarrow> 'a list \<Rightarrow> nat option" where
  "first_index P [] = None"
| "first_index P (x # xs) =
     (if P x then Some 0 else map_option Suc (first_index P xs))"

text \<open>
  The update loop of \<^verbatim>\<open>login\<close>: look the index up by e-mail and, when there is one,
  assign the changed keys in place.
\<close>

definition update_by_email :: "pystr \<Rightarrow> (user \<Rightarrow> user) \<Rightarrow> user list \<Rightarrow> user list" where
  "update_by_email e f users =
     (case first_index (\<lambda>u. email u = e) users of
        None \<Rightarrow> users
      | Some i \<Rightarrow> users[i := f (users ! i)])"

subsection \<open>Requests and responses\<close>

text \<open>
  The JSON body of a request, with string values; \<open>None\<close> is a missing key. Python
  treats the empty string as false, so \<^verbatim>\<open>not data.get(k)\<close> holds for a missing key
  and for an empty string alike.
\<close>

record register_request =
  reg_name :: "pystr option"
  reg_email :: "pystr option"
  reg_password :: "pystr option"
  reg_user_type :: "pystr option"

record login_request =
  login_email :: "pystr option"
  login_password :: "pystr option"

record change_password_request =
  current_password :: "pystr option"
  new_password :: "pystr option"

definition falsy :: "pystr option \<Rightarrow> bool" where
  "falsy v = (case v of None \<Rightarrow> True | Some s \<Rightarrow> s = [])"

text \<open>
  A response is the status code with the body. \<open>Error c m\<close> is
  \<^verbatim>\<open>{'success': False, 'error': m}\<close> with status \<open>c\<close>; \<open>ServerError e\<close> is the
  outer handler's status 500 with \<^verbatim>\<open>str(e)\<close>; \<open>Created\<close> (201) carries user id,
  access token, name, e-mail and user type; \<open>LoggedIn\<close> (200) carries access token, user
  id, name, e-mail and user type; \<open>Message m\<close> is \<^verbatim>\<open>{'success': True, 'message': m}\<close>.
\<close>

datatype response =
    Error nat string
  | ServerError exn
  | Created pystr pystr pystr pystr pystr
  | LoggedIn pystr pystr pystr pystr pystr
  | Message string

subsection \<open>register\<close>

text \<open>
  The arguments beyond the store and the request are the salt that
  \<^verbatim>\<open>bcrypt.gensalt()\<close> returns and the reading of \<^verbatim>\<open>datetime.now()\<close> stored as
  \<^verbatim>\<open>created_at\<close>. The result is the response and the store after the call.
\<close>

definition register ::
  "pylib \<Rightarrow> user list \<Rightarrow> register_request \<Rightarrow> bytes \<Rightarrow> time \<Rightarrow> response \<times> user list" where
  "register lib users data salt now =
     (if falsy (reg_name data) then (Error 400 ''Missing required field: name'', users)
      else if falsy (reg_email data) then (Error 400 ''Missing required field: email'', users)
      else if falsy (reg_password data) then
        (Error 400 ''Missing required field: password'', users)
      else if \<not> validate_email (the (reg_email data)) then
        (Error 400 ''Invalid email format'', users)
      else if \<not> fst (validate_password lib (the (reg_password data))) then
        (Error 400 (snd (validate_password lib (the (reg_password data)))), users)
      else
        (case hash_password lib salt (the (reg_password data)) of
           Inl e \<Rightarrow> (ServerError e, users)
         | Inr hashed_password \<Rightarrow>
             let new_user =
                   \<lparr> uid = [],
                     name = py_strip lib (the (reg_name data)),
                     email = py_strip lib (py_lower lib (the (reg_email data))),
                     password = Some hashed_password,
                     user_type =
                       (case reg_user_type data of None \<Rightarrow> ustr ''member'' | Some t \<Rightarrow> t),
                     auth_method = ustr ''local'',
                     status = ustr ''active'',
                     created_at = now,
                     last_login = None,
                     failed_login_attempts = Some 0,
                     locked_until = None \<rparr>
             in if list_ex (\<lambda>u. email u = email new_user) users then
                  (Error 400 ''Email already registered'', users)
                else
                  let user_id = str_nat (length users + 1);
                      users' = users @ [new_user\<lparr>uid := user_id\<rparr>]
                  in (case create_access_token lib user_id (timedelta_hours 24) of
                        Inl e \<Rightarrow> (ServerError e, users')
                      | Inr access_token \<Rightarrow>
                          (Created user_id access_token (name new_user) (email new_user)
                             (user_type new_user), users'))))"

subsection \<open>login\<close>

text \<open>
  \<^verbatim>\<open>login\<close> reads the clock twice: \<open>now_check\<close> is the reading compared with
  \<^verbatim>\<open>locked_until\<close>, \<open>now_write\<close> the later reading that is stored (as the base of the
  new \<^verbatim>\<open>locked_until\<close>, or as \<^verbatim>\<open>last_login\<close>).
\<close>

text \<open>\<^verbatim>\<open>user.get('failed_login_attempts', 0)\<close>: a missing counter reads as 0.\<close>

definition get_failed_login_attempts :: "user \<Rightarrow> int" where
  "get_failed_login_attempts u = (case failed_login_attempts u of None \<Rightarrow> 0 | Some n \<Rightarrow> n)"

text \<open>
  The lock test \<^verbatim>\<open>user.get('locked_until') and user['locked_until'] > datetime.now()\<close>.
\<close>

definition is_locked :: "user \<Rightarrow> time \<Rightarrow> bool" where
  "is_locked u now = (case locked_until u of None \<Rightarrow> False | Some t \<Rightarrow> t > now)"

definition login ::
  "pylib \<Rightarrow> user list \<Rightarrow> login_request \<Rightarrow> time \<Rightarrow> time \<Rightarrow> response \<times> user list" where
  "login lib users data now_check now_write =
     (if falsy (login_email data) \<or> falsy (login_password data) then
        (Error 400 ''Email and password are required'', users)
      else
        let e = py_strip lib (py_lower lib (the (login_email data)));
            pw = the (login_password data)
        in (case find (\<lambda>u. email u = e) users of
              None \<Rightarrow> (Error 401 ''Invalid email or password'', users)
            | Some u \<Rightarrow>
                if is_locked u now_check then
                  (Error 423 ''Account temporarily locked due to failed login attempts'', users)
                else
                  (case password u of
                     None \<Rightarrow> (ServerError (KeyError ''password''), users)
                   | Some hashed \<Rightarrow>
                       (case check_password lib pw hashed of
                          Inl ex \<Rightarrow> (ServerError ex, users)
                        | Inr ok \<Rightarrow>
                            if \<not> ok then
                              let failed_attempts = get_failed_login_attempts u + 1;
                                  update_data =
                                    (if failed_attempts \<ge> 5 then
                                       (\<lambda>r. r\<lparr>failed_login_attempts := Some failed_attempts,
                                               locked_until :=
                                                 Some (now_write + timedelta_minutes 30)\<rparr>)
                                     else (\<lambda>r. r\<lparr>failed_login_attempts := Some failed_attempts\<rparr>))
                              in (Error 401 ''Invalid email or password'',
                                  update_by_email e update_data users)
                            else
                              let users' =
                                    update_by_email e
                                      (\<lambda>r. r\<lparr>failed_login_attempts := Some 0,
                                              locked_until := None,
                                              last_login := Some now_write\<rparr>) users
                              in (case create_access_token lib (uid u) (timedelta_hours 24) of
                                    Inl ex \<Rightarrow> (ServerError ex, users')
                                  | Inr access_token \<Rightarrow>
                                      (LoggedIn access_token (uid u) (name u) (email u)
                                         (user_type u), users'))))))"

subsection \<open>change\_password\<close>

text \<open>
  \<open>user_id\<close> is the identity of the caller's token, \<open>salt\<close> what
  \<^verbatim>\<open>bcrypt.gensalt()\<close> returns when the new password is hashed.
\<close>

definition change_password ::
  "pylib \<Rightarrow> user list \<Rightarrow> pystr \<Rightarrow> change_password_request \<Rightarrow> bytes \<Rightarrow> response \<times> user list"
  where
  "change_password lib users user_id data salt =
     (if falsy (current_password data) \<or> falsy (new_password data) then
        (Error 400 ''Current password and new password are required'', users)
      else if \<not> fst (validate_password lib (the (new_password data))) then
        (Error 400 (snd (validate_password lib (the (new_password data)))), users)
      else
        (case find (\<lambda>u. uid u = user_id) users of
           None \<Rightarrow> (Error 404 ''User not found'', users)
         | Some u \<Rightarrow>
             (case password u of
                None \<Rightarrow> (ServerError (KeyError ''password''), users)
              | Some hashed \<Rightarrow>
                  (case check_password lib (the (current_password data)) hashed of
                     Inl ex \<Rightarrow> (ServerError ex, users)
                   | Inr ok \<Rightarrow>
                       if \<not> ok then (Error 401 ''Current password is incorrect'', users)
                       else
                         (case hash_password lib salt (the (new_password data)) of
                            Inl ex \<Rightarrow> (ServerError ex, users)
                          | Inr new_hashed_password \<Rightarrow>
                              (case first_index (\<lambda>u. uid u = user_id) users of
                                 None \<Rightarrow>
                                   (ServerError (TypeError ''list indices must be integers''),
                                    users)
                               | Some i \<Rightarrow>
                                   (Message ''Password changed successfully'',
                                    users[i := (users ! i)\<lparr>password :=
                                                 Some new_hashed_password\<rparr>])))))))"

subsection \<open>Running the handlers\<close>

text \<open>
  A sequence of login requests, each with its two clock readings, run one after the
  other against the store; the result is the store they leave.
\<close>

fun run_logins :: "pylib \<Rightarrow> user list \<Rightarrow> (login_request \<times> time \<times> time) list \<Rightarrow> user list" where
  "run_logins lib users [] = users"
| "run_logins lib users ((data, now_check, now_write) # rest) =
     run_logins lib (snd (login lib users data now_check now_write)) rest"

text \<open>
  A stand-in for the libraries, used to run the handlers on concrete ASCII inputs: it
  knows no character beyond ASCII, its hash is the two-byte salt followed by the
  password bytes, its check compares what follows the salt, and its token is the
  identity itself. Nothing general is proved from it.
\<close>

definition stub_lib :: pylib where
  "stub_lib =
     \<lparr> unicode_isdecimal = (\<lambda>c. False),
       unicode_isspace = (\<lambda>c. False),
       unicode_lower = (\<lambda>s. s),
       bcrypt_hashpw = (\<lambda>pw salt. Inr (salt @ pw)),
       bcrypt_checkpw = (\<lambda>pw hashed. Inr (drop 2 hashed = pw)),
       create_access_token = (\<lambda>identity expires_delta. Inr identity) \<rparr>"

definition login_req :: "string \<Rightarrow> string \<Rightarrow> login_request" where
  "login_req e p = \<lparr> login_email = Some (ustr e), login_password = Some (ustr p) \<rparr>"

definition register_req :: "string \<Rightarrow> string \<Rightarrow> string \<Rightarrow> register_request" where
  "register_req n e p =
     \<lparr> reg_name = Some (ustr n), reg_email = Some (ustr e), reg_password = Some (ustr p),
       reg_user_type = None \<rparr>"

definition change_req :: "string \<Rightarrow> string \<Rightarrow> change_password_request" where
  "change_req c n = \<lparr> current_password = Some (ustr c), new_password = Some (ustr n) \<rparr>"

text \<open>
  The account that \<^verbatim>\<open>register\<close> stores for name Ann, e-mail User@Example.com and
  password Valid1Pass, with salt \<^verbatim>\<open>$$\<close> at time 0, in the empty store.
\<close>

definition ann :: user where
  "ann =
     \<lparr> uid = ustr ''1'',
       name = ustr ''Ann'',
       email = ustr ''user@example.com'',
       password = Some (ustr ''$$Valid1Pass''),
       user_type = ustr ''member'',
       auth_method = ustr ''local'',
       status = ustr ''active'',
       created_at = 0,
       last_login = None,
       failed_login_attempts = Some 0,
       locked_until = None \<rparr>"

text \<open>A second account, locked until time 500, with its own e-mail.\<close>

definition mallory :: user where
  "mallory =
     \<lparr> uid = ustr ''2'',
       name = ustr ''Mallory'',
       email = ustr ''mallory@example.com'',
       password = Some (ustr ''$$Other2Pass''),
       user_type = ustr ''member'',
       auth_method = ustr ''local'',
       status = ustr ''active'',
       created_at = 0,
       last_login = None,
       failed_login_attempts = Some 5,
       locked_until = Some 500 \<rparr>"

section \<open>Properties\<close>

lemmas cls_defs = is_upper_def is_lower_def is_ascii_digit_def is_digit_def is_alpha_def
  email_local_char_def email_domain_char_def is_space_def ascii_lower_def

lemmas run_defs = login_req_def ann_def normalize_email_def py_strip_def py_lower_def ustr_def
  cls_defs is_locked_def get_failed_login_attempts_def check_password_def utf8_char_def
  stub_lib_def

subsection \<open>Looking users up and updating them\<close>

lemma find_first_index:
  "find P xs = Some x \<Longrightarrow> \<exists>i. first_index P xs = Some i \<and> i < length xs \<and> xs ! i = x"
  by (induction xs) (auto split: if_splits)

lemma first_index_first:
  "first_index P xs = Some i \<Longrightarrow> i < length xs \<and> P (xs ! i) \<and> (\<forall>j<i. \<not> P (xs ! j))"
proof (induction xs arbitrary: i)
  case Nil
  then show ?case by simp
next
  case (Cons x xs)
  show ?case
  proof (cases "P x")
    case True
    with Cons.prems show ?thesis by simp
  next
    case False
    with Cons.prems obtain k where k: "first_index P xs = Some k" "i = Suc k" by auto
    from Cons.IH [OF k(1)] have ih: "k < length xs" "P (xs ! k)" "\<forall>j<k. \<not> P (xs ! j)"
      by auto
    have "\<forall>j<Suc k. \<not> P ((x # xs) ! j)"
    proof (intro allI impI)
      fix j assume "j < Suc k"
      then show "\<not> P ((x # xs) ! j)" using False ih(3) by (cases j) auto
    qed
    with ih k show ?thesis by simp
  qed
qed

lemma find_update_first:
  "first_index P xs = Some i \<Longrightarrow> P y \<Longrightarrow> find P (xs[i := y]) = Some y"
  by (induction xs arbitrary: i) (auto split: if_splits)

subsection \<open>The branches of login\<close>

lemma login_wrong_step:
  assumes "login_email data = Some raw" "raw \<noteq> []" "login_password data = Some pw" "pw \<noteq> []"
    and "find (\<lambda>r. email r = normalize_email lib raw) users = Some u"
    and "\<not> is_locked u now_check"
    and "password u = Some hashed" "check_password lib pw hashed = Inr False"
  shows "login lib users data now_check now_write =
      (Error 401 ''Invalid email or password'',
       update_by_email (normalize_email lib raw)
         (if 5 \<le> get_failed_login_attempts u + 1
          then (\<lambda>r. r\<lparr>failed_login_attempts := Some (get_failed_login_attempts u + 1),
                       locked_until := Some (now_write + timedelta_minutes 30)\<rparr>)
          else (\<lambda>r. r\<lparr>failed_login_attempts := Some (get_failed_login_attempts u + 1)\<rparr>)) users)"
  using assms by (simp add: login_def falsy_def normalize_email_def Let_def)

lemma find_holds: "find P xs = Some x \<Longrightarrow> P x"
  by (auto simp: find_Some_iff)

lemma login_locked_step:
  assumes "login_email data = Some raw" "raw \<noteq> []" "login_password data = Some pw" "pw \<noteq> []"
    and "find (\<lambda>r. email r = normalize_email lib raw) users = Some u"
    and "is_locked u now_check"
  shows "login lib users data now_check now_write =
      (Error 423 ''Account temporarily locked due to failed login attempts'', users)"
  using assms by (simp add: login_def falsy_def normalize_email_def Let_def)

lemma login_right_step:
  assumes "login_email data = Some raw" "raw \<noteq> []" "login_password data = Some pw" "pw \<noteq> []"
    and "find (\<lambda>r. email r = normalize_email lib raw) users = Some u"
    and "\<not> is_locked u now_check"
    and "password u = Some hashed" "check_password lib pw hashed = Inr True"
  shows "login lib users data now_check now_write =
      (case create_access_token lib (uid u) (timedelta_hours 24) of
         Inl ex \<Rightarrow> ServerError ex
       | Inr access_token \<Rightarrow> LoggedIn access_token (uid u) (name u) (email u) (user_type u),
       update_by_email (normalize_email lib raw)
         (\<lambda>r. r\<lparr>failed_login_attempts := Some 0, locked_until := None,
                 last_login := Some now_write\<rparr>) users)"
  using assms by (simp add: login_def falsy_def normalize_email_def Let_def split: sum.splits)

lemma update_by_email_find:
  assumes "find (\<lambda>r. email r = e) users = Some u" and "email (f u) = e"
  shows "find (\<lambda>r. email r = e) (update_by_email e f users) = Some (f u)"
proof -
  from assms(1) obtain i where "first_index (\<lambda>r. email r = e) users = Some i" "users ! i = u"
    using find_first_index by fastforce
  then show ?thesis
    using assms(2) by (simp add: update_by_email_def find_update_first)
qed

lemma run_logins_append:
  "run_logins lib users (xs @ ys) = run_logins lib (run_logins lib users xs) ys"
  by (induction xs arbitrary: users) auto

text \<open>Failures that stay below the threshold only count.\<close>

lemma run_logins_wrong:
  assumes "\<forall>(data, t1, t2) \<in> set attempts. \<exists>raw p.
             login_email data = Some raw \<and> raw \<noteq> [] \<and> normalize_email lib raw = e
             \<and> login_password data = Some p \<and> p \<noteq> []
             \<and> check_password lib p hashed = Inr False"
    and "find (\<lambda>r. email r = e) users = Some u"
    and "locked_until u = None" "password u = Some hashed"
    and "get_failed_login_attempts u + int (length attempts) < 5"
    and "attempts \<noteq> []"
  shows "find (\<lambda>r. email r = e) (run_logins lib users attempts) =
           Some (u\<lparr>failed_login_attempts :=
                     Some (get_failed_login_attempts u + int (length attempts))\<rparr>)"
  using assms
proof (induction attempts arbitrary: users u)
  case Nil
  then show ?case by simp
next
  case (Cons a rest)
  obtain data t1 t2 where a: "a = (data, t1, t2)" by (cases a) auto
  from Cons.prems(1) a obtain raw p where d:
    "login_email data = Some raw" "raw \<noteq> []" "normalize_email lib raw = e"
    "login_password data = Some p" "p \<noteq> []" "check_password lib p hashed = Inr False"
    by auto
  let ?u1 = "u\<lparr>failed_login_attempts := Some (get_failed_login_attempts u + 1)\<rparr>"
  let ?users1 = "snd (login lib users data t1 t2)"
  have unlocked: "\<not> is_locked u t1" using Cons.prems(3) by (simp add: is_locked_def)
  have small: "\<not> 5 \<le> get_failed_login_attempts u + 1" using Cons.prems(5) by simp
  have step: "?users1 = update_by_email e (\<lambda>r. r\<lparr>failed_login_attempts :=
                  Some (get_failed_login_attempts u + 1)\<rparr>) users"
    using login_wrong_step [of data raw p lib users u t1 hashed t2] d Cons.prems(2,4) unlocked small
    by simp
  have found1: "find (\<lambda>r. email r = e) ?users1 = Some ?u1"
    unfolding step using Cons.prems(2) find_holds [OF Cons.prems(2)]
    by (intro update_by_email_find) auto
  show ?case
  proof (cases "rest = []")
    case True
    then show ?thesis using found1 a by simp
  next
    case False
    have "find (\<lambda>r. email r = e) (run_logins lib ?users1 rest) =
           Some (?u1\<lparr>failed_login_attempts :=
                     Some (get_failed_login_attempts ?u1 + int (length rest))\<rparr>)"
      using Cons.prems(1,3,4,5) False found1
      by (intro Cons.IH) (auto simp: get_failed_login_attempts_def)
    then show ?thesis using a by (simp add: get_failed_login_attempts_def add.assoc)
  qed
qed

lemma login_success_cases:
  assumes "login lib users data now_check now_write = (LoggedIn tok i n e t, users')"
  shows "\<exists>raw pw u hashed.
           login_email data = Some raw \<and> raw \<noteq> [] \<and> login_password data = Some pw \<and> pw \<noteq> []
           \<and> find (\<lambda>r. email r = normalize_email lib raw) users = Some u
           \<and> \<not> is_locked u now_check \<and> password u = Some hashed
           \<and> check_password lib pw hashed = Inr True"
proof -
  from assms have "\<not> falsy (login_email data)" "\<not> falsy (login_password data)"
    by (auto simp: login_def split: if_splits)
  then obtain raw pw where sup: "login_email data = Some raw" "raw \<noteq> []"
      "login_password data = Some pw" "pw \<noteq> []"
    by (auto simp: falsy_def split: option.splits)
  from assms sup obtain u where found: "find (\<lambda>r. email r = normalize_email lib raw) users = Some u"
    by (cases "find (\<lambda>r. email r = normalize_email lib raw) users")
       (auto simp: login_def falsy_def normalize_email_def Let_def)
  from assms sup found have unlocked: "\<not> is_locked u now_check"
    using login_locked_step [of data raw pw lib users u now_check now_write] by auto
  from assms sup found unlocked obtain hashed where pw: "password u = Some hashed"
    by (cases "password u") (auto simp: login_def falsy_def normalize_email_def Let_def)
  from assms sup found unlocked pw have "check_password lib pw hashed = Inr True"
    by (auto simp: login_def falsy_def normalize_email_def Let_def split: sum.splits if_splits)
  with sup found unlocked pw show ?thesis by blast
qed

subsection \<open>The branches of change\_password and register\<close>

lemma validate_password_reason:
  "\<not> fst (validate_password lib s) \<Longrightarrow>
     snd (validate_password lib s) \<in>
       {''Password must be at least 8 characters long'',
        ''Password must contain at least one uppercase letter'',
        ''Password must contain at least one lowercase letter'',
        ''Password must contain at least one number''}"
  by (simp add: validate_password_def split: if_splits)

lemma change_password_weak:
  assumes "current_password data = Some cur" "cur \<noteq> []"
    and "new_password data = Some new" "new \<noteq> []"
    and "\<not> fst (validate_password lib new)"
  shows "change_password lib users user_id data salt =
           (Error 400 (snd (validate_password lib new)), users)"
  using assms by (simp add: change_password_def falsy_def)

lemma change_password_keeps_store:
  assumes "fst (change_password lib users user_id data salt) \<noteq>
             Message ''Password changed successfully''"
  shows "snd (change_password lib users user_id data salt) = users"
  using assms
  by (auto simp: change_password_def split: if_splits option.splits sum.splits)

subsection \<open>Encoding\<close>

lemma utf8_char_raises:
  "(\<exists>e. utf8_char c = Inl e) \<longleftrightarrow> 55296 \<le> c \<and> c \<le> 57343"
  by (auto simp: utf8_char_def)

lemma utf8_char_error: "utf8_char c = Inl e \<Longrightarrow> e = UnicodeEncodeError c"
  by (auto simp: utf8_char_def split: if_splits)

lemma encode_utf8_raises:
  "(\<exists>c. encode_utf8 s = Inl (UnicodeEncodeError c)) \<longleftrightarrow> (\<exists>c\<in>set s. 55296 \<le> c \<and> c \<le> 57343)"
proof (induction s)
  case Nil
  then show ?case by simp
next
  case (Cons a s)
  show ?case
  proof (cases "utf8_char a")
    case (Inl e)
    then have "55296 \<le> a \<and> a \<le> 57343" using utf8_char_raises [of a] by auto
    moreover have "e = UnicodeEncodeError a" using Inl by (rule utf8_char_error)
    ultimately show ?thesis using Inl by auto
  next
    case (Inr b)
    then have "\<not> (55296 \<le> a \<and> a \<le> 57343)" using utf8_char_raises [of a] by auto
    then show ?thesis using Inr Cons.IH by (auto split: sum.splits)
  qed
qed

subsection \<open>Registration\<close>

lemma validate_email_nonempty: "validate_email raw \<Longrightarrow> raw \<noteq> []"
  by (auto simp: validate_email_def)

lemma validate_password_nonempty: "fst (validate_password lib pw) \<Longrightarrow> pw \<noteq> []"
  by (auto simp: validate_password_def split: if_splits)

lemma register_duplicate:
  assumes "reg_name data = Some nm" "nm \<noteq> []"
    and "reg_email data = Some raw" "validate_email raw"
    and "reg_password data = Some pw" "fst (validate_password lib pw)"
    and "hash_password lib salt pw = Inr hashed"
    and "\<exists>r\<in>set users. email r = normalize_email lib raw"
  shows "register lib users data salt now = (Error 400 ''Email already registered'', users)"
  using assms validate_email_nonempty [of raw] validate_password_nonempty [of lib pw]
  by (simp add: register_def falsy_def normalize_email_def list_ex_iff Let_def)

lemma register_created_stores:
  assumes "register lib users data salt now = (Created i tok n e t, users')"
    and "reg_email data = Some raw"
  shows "\<exists>r\<in>set users'. email r = normalize_email lib raw"
  using assms
  by (auto simp: register_def falsy_def normalize_email_def Let_def
      split: if_splits sum.splits)

lemmas reg_defs = register_def register_req_def falsy_def validate_email_def match_domain_def
  validate_password_def re_search_def hash_password_def timedelta_hours_def str_nat.simps Let_def

lemma register_ann:
  "register stub_lib [] (register_req ''Ann'' ''User@Example.com'' ''Valid1Pass'') (ustr ''$$'') 0 =
     (Created (ustr ''1'') (ustr ''1'') (ustr ''Ann'') (ustr ''user@example.com'')
        (ustr ''member''), [ann])"
  by (simp add: reg_defs run_defs)

subsection \<open>Password strength\<close>

text \<open>
  C8. For every string \<open>s\<close>, \<open>validate_password\<close> checks, in this order and with the
  first failure deciding the reason: fewer than 8 characters; no uppercase letter A-Z;
  no lowercase letter a-z; no decimal digit. It succeeds exactly when all four checks
  pass. The five strings of the specification are decided as it says: short1A,
  alllowercase1, ALLUPPER1 and NoDigitsHere are rejected, Valid1Pass is accepted. This
  holds for every Unicode table of the interpreter.
\<close>

theorem validate_password_checks:
  "(length s < 8 \<longrightarrow>
      validate_password lib s = (False, ''Password must be at least 8 characters long''))
   \<and> (8 \<le> length s \<and> \<not> (\<exists>c\<in>set s. is_upper c) \<longrightarrow>
      validate_password lib s = (False, ''Password must contain at least one uppercase letter''))
   \<and> (8 \<le> length s \<and> (\<exists>c\<in>set s. is_upper c) \<and> \<not> (\<exists>c\<in>set s. is_lower c) \<longrightarrow>
      validate_password lib s = (False, ''Password must contain at least one lowercase letter''))
   \<and> (8 \<le> length s \<and> (\<exists>c\<in>set s. is_upper c) \<and> (\<exists>c\<in>set s. is_lower c)
        \<and> \<not> (\<exists>c\<in>set s. is_digit lib c) \<longrightarrow>
      validate_password lib s = (False, ''Password must contain at least one number''))
   \<and> (fst (validate_password lib s) \<longleftrightarrow>
        8 \<le> length s \<and> (\<exists>c\<in>set s. is_upper c) \<and> (\<exists>c\<in>set s. is_lower c)
        \<and> (\<exists>c\<in>set s. is_digit lib c))
   \<and> \<not> fst (validate_password lib (ustr ''short1A''))
   \<and> \<not> fst (validate_password lib (ustr ''alllowercase1''))
   \<and> \<not> fst (validate_password lib (ustr ''ALLUPPER1''))
   \<and> \<not> fst (validate_password lib (ustr ''NoDigitsHere''))
   \<and> fst (validate_password lib (ustr ''Valid1Pass''))"
  by (simp add: validate_password_def re_search_def list_ex_iff ustr_def cls_defs)

theorem validate_password_checks_witness:
  "validate_password stub_lib (ustr ''short1A'') =
     (False, ''Password must be at least 8 characters long'')
   \<and> validate_password stub_lib (ustr ''alllowercase1'') =
     (False, ''Password must contain at least one uppercase letter'')
   \<and> validate_password stub_lib (ustr ''ALLUPPER1'') =
     (False, ''Password must contain at least one lowercase letter'')
   \<and> validate_password stub_lib (ustr ''NoDigitsHere'') =
     (False, ''Password must contain at least one number'')"
  using validate_password_checks [of "ustr ''short1A''" stub_lib]
    validate_password_checks [of "ustr ''alllowercase1''" stub_lib]
    validate_password_checks [of "ustr ''ALLUPPER1''" stub_lib]
    validate_password_checks [of "ustr ''NoDigitsHere''" stub_lib]
  by (simp add: ustr_def cls_defs)

subsection \<open>Failed password checks\<close>

text \<open>
  C1, for supplied credentials. Let a login attempt supply an e-mail and a password,
  both present and non-empty (\<^verbatim>\<open>login\<close> answers 400 to anything else before it
  looks at the store). Let the account that the store returns for the normalised e-mail,
  the first record with that e-mail, be not locked at the clock
  reading of the lock test (\<^verbatim>\<open>locked_until\<close> missing, \<^verbatim>\<open>None\<close> or not after that
  reading), and let the password check fail. Then the response is 401 and the stored
  record of that account, and nothing else in the store, changes: its counter becomes
  the old counter plus 1 (a missing counter counts as 0). When the new counter is at
  least 5 the record is locked until 30 minutes after the clock reading of the write, and
  it is locked at exactly the times before that. When the new counter is below 5 only
  the counter changes, so \<^verbatim>\<open>locked_until\<close> keeps its value and the account stays
  unlocked. An expired lock is such a value: the counter it left behind is not reset but
  counted on, so the next failure after an expired lock locks the account again.
\<close>

theorem login_wrong_password_counts:
  assumes "login_email data = Some raw" "raw \<noteq> []"
    and "login_password data = Some pw" "pw \<noteq> []"
    and "find (\<lambda>r. email r = normalize_email lib raw) users = Some u"
    and "\<not> is_locked u now_check"
    and "password u = Some hashed" "check_password lib pw hashed = Inr False"
  shows "\<exists>i u'. first_index (\<lambda>r. email r = normalize_email lib raw) users = Some i
           \<and> i < length users \<and> users ! i = u
           \<and> login lib users data now_check now_write =
               (Error 401 ''Invalid email or password'', users[i := u'])
           \<and> failed_login_attempts u' = Some (get_failed_login_attempts u + 1)
           \<and> (5 \<le> get_failed_login_attempts u + 1 \<longrightarrow>
                u' = u\<lparr>failed_login_attempts := Some (get_failed_login_attempts u + 1),
                        locked_until := Some (now_write + 30 * 60 * 1000000)\<rparr>
                \<and> (\<forall>t. is_locked u' t \<longleftrightarrow> t < now_write + 30 * 60 * 1000000))
           \<and> (get_failed_login_attempts u + 1 < 5 \<longrightarrow>
                u' = u\<lparr>failed_login_attempts := Some (get_failed_login_attempts u + 1)\<rparr>
                \<and> locked_until u' = locked_until u \<and> \<not> is_locked u' now_check)"
proof -
  let ?e = "normalize_email lib raw"
  let ?n = "get_failed_login_attempts u + 1"
  from assms(5) obtain i where i: "first_index (\<lambda>r. email r = ?e) users = Some i"
      "i < length users" "users ! i = u"
    using find_first_index by fastforce
  show ?thesis
  proof (cases "5 \<le> ?n")
    case True
    let ?u' = "u\<lparr>failed_login_attempts := Some ?n,
                  locked_until := Some (now_write + 30 * 60 * 1000000)\<rparr>"
    have "login lib users data now_check now_write =
            (Error 401 ''Invalid email or password'', users[i := ?u'])"
      using login_wrong_step [OF assms, of now_write] i True
      by (simp add: update_by_email_def timedelta_minutes_def)
    moreover have "\<forall>t. is_locked ?u' t \<longleftrightarrow> t < now_write + 30 * 60 * 1000000"
      by (simp add: is_locked_def)
    ultimately show ?thesis using i True by auto
  next
    case False
    let ?u' = "u\<lparr>failed_login_attempts := Some ?n\<rparr>"
    have "login lib users data now_check now_write =
            (Error 401 ''Invalid email or password'', users[i := ?u'])"
      using login_wrong_step [OF assms, of now_write] i False
      by (simp add: update_by_email_def)
    moreover have "\<not> is_locked ?u' now_check"
      using assms(6) by (simp add: is_locked_def)
    ultimately show ?thesis using i False by auto
  qed
qed

theorem login_wrong_password_counts_witness:
  "login stub_lib [ann] (login_req ''User@Example.com'' ''Wrong1Pass'') 10 11 =
     (Error 401 ''Invalid email or password'', [ann\<lparr>failed_login_attempts := Some 1\<rparr>])
   \<and> login stub_lib [ann\<lparr>failed_login_attempts := Some 5, locked_until := Some 100\<rparr>]
        (login_req ''User@Example.com'' ''Wrong1Pass'') 100 101 =
     (Error 401 ''Invalid email or password'',
      [ann\<lparr>failed_login_attempts := Some 6, locked_until := Some 1800000101\<rparr>])"
proof -
  have a: "login stub_lib [ann] (login_req ''User@Example.com'' ''Wrong1Pass'') 10 11 =
     (Error 401 ''Invalid email or password'', [ann\<lparr>failed_login_attempts := Some 1\<rparr>])"
    using login_wrong_password_counts [of "login_req ''User@Example.com'' ''Wrong1Pass''"
        "ustr ''User@Example.com''" "ustr ''Wrong1Pass''" stub_lib "[ann]" ann 10
        "ustr ''$$Valid1Pass''" 11]
    by (simp add: login_req_def ann_def normalize_email_def py_strip_def py_lower_def ustr_def
        cls_defs is_locked_def get_failed_login_attempts_def check_password_def utf8_char_def
        stub_lib_def)
  let ?b = "ann\<lparr>failed_login_attempts := Some 5, locked_until := Some 100\<rparr>"
  have b: "login stub_lib [?b] (login_req ''User@Example.com'' ''Wrong1Pass'') 100 101 =
     (Error 401 ''Invalid email or password'',
      [ann\<lparr>failed_login_attempts := Some 6, locked_until := Some 1800000101\<rparr>])"
    using login_wrong_password_counts [of "login_req ''User@Example.com'' ''Wrong1Pass''"
        "ustr ''User@Example.com''" "ustr ''Wrong1Pass''" stub_lib "[?b]" ?b 100
        "ustr ''$$Valid1Pass''" 101]
    by (simp add: login_req_def ann_def normalize_email_def py_strip_def py_lower_def ustr_def
        cls_defs is_locked_def get_failed_login_attempts_def check_password_def utf8_char_def
        stub_lib_def)
  from a b show ?thesis by simp
qed

text \<open>
  C1 as stated covers every wrong password, the empty one too. The account below is not
  locked and its hash does not verify the empty password, yet the attempt is answered
  400 by the required-fields test and the counter stays at 0.
\<close>

theorem login_empty_password_not_counted:
  "locked_until ann = None \<and> failed_login_attempts ann = Some 0
   \<and> password ann = Some (ustr ''$$Valid1Pass'')
   \<and> check_password stub_lib [] (ustr ''$$Valid1Pass'') = Inr False
   \<and> login stub_lib [ann] (login_req ''user@example.com'' []) 1 2 =
       (Error 400 ''Email and password are required'', [ann])"
  by (simp add: login_def falsy_def run_defs)

subsection \<open>The lock\<close>

text \<open>
  C2, for supplied credentials. Let a login attempt supply an e-mail and a password,
  both present and non-empty, and let the account that the store returns for the
  normalised e-mail have
  \<^verbatim>\<open>locked_until\<close> set and strictly after the clock reading of the lock test. Then
  \<^verbatim>\<open>login\<close> answers 423, account temporarily locked, and leaves the store as it was,
  whatever the password and whatever the password check would say: the check is not
  reached. In particular, take an account with counter 0 and no lock and five
  consecutive attempts whose password check fails, the fifth writing at clock reading
  \<open>w5\<close>. They leave the counter at 5 and the lock at \<open>w5\<close> plus 30 minutes. A further
  attempt with the correct password is answered 423 and changes nothing when its lock
  test reads a time before the lock's end; when it reads the lock's end or a later time
  it succeeds (the token library permitting), with the counter back at 0, the lock
  cleared and \<^verbatim>\<open>last_login\<close> set.
\<close>

theorem locked_account_refused:
  "(login_email data = Some raw \<and> raw \<noteq> [] \<and> login_password data = Some pw \<and> pw \<noteq> []
      \<and> find (\<lambda>r. email r = normalize_email lib raw) users = Some u
      \<and> locked_until u = Some until \<and> now_check < until
     \<longrightarrow> login lib users data now_check now_write =
           (Error 423 ''Account temporarily locked due to failed login attempts'', users))
   \<and> (find (\<lambda>r. email r = e) users0 = Some u0
        \<and> get_failed_login_attempts u0 = 0 \<and> locked_until u0 = None
        \<and> password u0 = Some hashed
        \<and> length first_four = 4
        \<and> (\<forall>(d, t1, t2) \<in> set (first_four @ [(d5, c5, w5)]). \<exists>raw p.
              login_email d = Some raw \<and> raw \<noteq> [] \<and> normalize_email lib raw = e
              \<and> login_password d = Some p \<and> p \<noteq> []
              \<and> check_password lib p hashed = Inr False)
        \<and> login_email good = Some graw \<and> graw \<noteq> [] \<and> normalize_email lib graw = e
        \<and> login_password good = Some gpw \<and> gpw \<noteq> []
        \<and> check_password lib gpw hashed = Inr True
        \<and> create_access_token lib (uid u0) (timedelta_hours 24) = Inr tok
     \<longrightarrow> (let users5 = run_logins lib users0 (first_four @ [(d5, c5, w5)]);
              lock_end = w5 + 30 * 60 * 1000000
          in (\<exists>u5. find (\<lambda>r. email r = e) users5 = Some u5
                \<and> failed_login_attempts u5 = Some 5 \<and> locked_until u5 = Some lock_end)
           \<and> (\<forall>t t'. t < lock_end \<longrightarrow>
                login lib users5 good t t' =
                  (Error 423 ''Account temporarily locked due to failed login attempts'',
                   users5))
           \<and> (\<forall>t t'. lock_end \<le> t \<longrightarrow>
                (\<exists>users6 u6.
                   login lib users5 good t t' =
                     (LoggedIn tok (uid u0) (name u0) (email u0) (user_type u0), users6)
                   \<and> find (\<lambda>r. email r = e) users6 = Some u6
                   \<and> failed_login_attempts u6 = Some 0 \<and> locked_until u6 = None
                   \<and> last_login u6 = Some t'))))"
proof (intro conjI impI)
  assume "login_email data = Some raw \<and> raw \<noteq> [] \<and> login_password data = Some pw \<and> pw \<noteq> []
      \<and> find (\<lambda>r. email r = normalize_email lib raw) users = Some u
      \<and> locked_until u = Some until \<and> now_check < until"
  then show "login lib users data now_check now_write =
           (Error 423 ''Account temporarily locked due to failed login attempts'', users)"
    by (intro login_locked_step [of data raw pw lib users u]) (auto simp: is_locked_def)
next
  assume h: "find (\<lambda>r. email r = e) users0 = Some u0
        \<and> get_failed_login_attempts u0 = 0 \<and> locked_until u0 = None
        \<and> password u0 = Some hashed
        \<and> length first_four = 4
        \<and> (\<forall>(d, t1, t2) \<in> set (first_four @ [(d5, c5, w5)]). \<exists>raw p.
              login_email d = Some raw \<and> raw \<noteq> [] \<and> normalize_email lib raw = e
              \<and> login_password d = Some p \<and> p \<noteq> []
              \<and> check_password lib p hashed = Inr False)
        \<and> login_email good = Some graw \<and> graw \<noteq> [] \<and> normalize_email lib graw = e
        \<and> login_password good = Some gpw \<and> gpw \<noteq> []
        \<and> check_password lib gpw hashed = Inr True
        \<and> create_access_token lib (uid u0) (timedelta_hours 24) = Inr tok"
  let ?users4 = "run_logins lib users0 first_four"
  let ?u4 = "u0\<lparr>failed_login_attempts := Some 4\<rparr>"
  let ?end = "w5 + 30 * 60 * 1000000"
  let ?u5 = "u0\<lparr>failed_login_attempts := Some 5, locked_until := Some ?end\<rparr>"
  let ?users5 = "run_logins lib users0 (first_four @ [(d5, c5, w5)])"
  from h have four: "first_four \<noteq> []" by auto
  have found4: "find (\<lambda>r. email r = e) ?users4 = Some ?u4"
    using run_logins_wrong [of first_four lib e hashed users0 u0] h four by simp
  from h obtain raw5 p5 where d5:
    "login_email d5 = Some raw5" "raw5 \<noteq> []" "normalize_email lib raw5 = e"
    "login_password d5 = Some p5" "p5 \<noteq> []" "check_password lib p5 hashed = Inr False"
    by auto
  have unlocked4: "\<not> is_locked ?u4 c5" using h by (simp add: is_locked_def)
  have users5: "?users5 = update_by_email e
       (\<lambda>r. r\<lparr>failed_login_attempts := Some 5, locked_until := Some ?end\<rparr>) ?users4"
    using login_wrong_step [of d5 raw5 p5 lib ?users4 ?u4 c5 hashed w5] d5 found4 unlocked4 h
    by (simp add: run_logins_append get_failed_login_attempts_def timedelta_minutes_def)
  have found5: "find (\<lambda>r. email r = e) ?users5 = Some ?u5"
  proof -
    have "email ?u4 = e" using find_holds [OF found4] by simp
    then have "find (\<lambda>r. email r = e) ?users5 =
        Some (?u4\<lparr>failed_login_attempts := Some 5, locked_until := Some ?end\<rparr>)"
      unfolding users5 using found4 by (intro update_by_email_find) auto
    then show ?thesis by simp
  qed
  have inside: "login lib ?users5 good t t' =
        (Error 423 ''Account temporarily locked due to failed login attempts'', ?users5)"
    if "t < ?end" for t t'
    using that h found5
    by (intro login_locked_step [of good graw gpw lib ?users5 ?u5]) (auto simp: is_locked_def)
  have after: "\<exists>users6 u6.
       login lib ?users5 good t t' =
         (LoggedIn tok (uid u0) (name u0) (email u0) (user_type u0), users6)
       \<and> find (\<lambda>r. email r = e) users6 = Some u6
       \<and> failed_login_attempts u6 = Some 0 \<and> locked_until u6 = None
       \<and> last_login u6 = Some t'"
    if "?end \<le> t" for t t'
  proof -
    let ?reset = "\<lambda>r. r\<lparr>failed_login_attempts := Some 0, locked_until := None,
                        last_login := Some t'\<rparr>"
    have unlocked5: "\<not> is_locked ?u5 t" using that by (simp add: is_locked_def)
    have "login lib ?users5 good t t' =
        (LoggedIn tok (uid u0) (name u0) (email u0) (user_type u0),
         update_by_email e ?reset ?users5)"
      using login_right_step [of good graw gpw lib ?users5 ?u5 t hashed t'] h found5 unlocked5
      by simp
    moreover have "find (\<lambda>r. email r = e) (update_by_email e ?reset ?users5) = Some (?reset ?u5)"
      using found5 find_holds [OF found5] by (intro update_by_email_find) auto
    ultimately show ?thesis by auto
  qed
  show "let users5 = ?users5; lock_end = ?end
        in (\<exists>u5. find (\<lambda>r. email r = e) users5 = Some u5
              \<and> failed_login_attempts u5 = Some 5 \<and> locked_until u5 = Some lock_end)
           \<and> (\<forall>t t'. t < lock_end \<longrightarrow>
                login lib users5 good t t' =
                  (Error 423 ''Account temporarily locked due to failed login attempts'',
                   users5))
           \<and> (\<forall>t t'. lock_end \<le> t \<longrightarrow>
                (\<exists>users6 u6.
                   login lib users5 good t t' =
                     (LoggedIn tok (uid u0) (name u0) (email u0) (user_type u0), users6)
                   \<and> find (\<lambda>r. email r = e) users6 = Some u6
                   \<and> failed_login_attempts u6 = Some 0 \<and> locked_until u6 = None
                   \<and> last_login u6 = Some t'))"
    unfolding Let_def using found5 inside after by auto
qed


theorem locked_account_refused_witness:
  "login stub_lib [ann\<lparr>locked_until := Some 100\<rparr>]
     (login_req ''user@example.com'' ''Valid1Pass'') 99 99 =
     (Error 423 ''Account temporarily locked due to failed login attempts'',
      [ann\<lparr>locked_until := Some 100\<rparr>])
   \<and> fst (login stub_lib
        (run_logins stub_lib [ann]
           [(login_req ''User@Example.com'' ''Wrong1Pass'', 1, 2),
            (login_req ''User@Example.com'' ''Wrong2Pass'', 1, 2),
            (login_req ''User@Example.com'' ''Wrong3Pass'', 1, 2),
            (login_req ''User@Example.com'' ''Wrong4Pass'', 1, 2),
            (login_req ''User@Example.com'' ''Wrong5Pass'', 3, 4)])
        (login_req ''user@example.com'' ''Valid1Pass'') 1800000003 1800000003) =
     Error 423 ''Account temporarily locked due to failed login attempts''
   \<and> fst (login stub_lib
        (run_logins stub_lib [ann]
           [(login_req ''User@Example.com'' ''Wrong1Pass'', 1, 2),
            (login_req ''User@Example.com'' ''Wrong2Pass'', 1, 2),
            (login_req ''User@Example.com'' ''Wrong3Pass'', 1, 2),
            (login_req ''User@Example.com'' ''Wrong4Pass'', 1, 2),
            (login_req ''User@Example.com'' ''Wrong5Pass'', 3, 4)])
        (login_req ''user@example.com'' ''Valid1Pass'') 1800000004 1800000005) =
     LoggedIn (ustr ''1'') (ustr ''1'') (ustr ''Ann'') (ustr ''user@example.com'')
       (ustr ''member'')"
  (is "?A \<and> ?B \<and> ?C")
proof -
  let ?good = "login_req ''user@example.com'' ''Valid1Pass''"
  let ?locked = "ann\<lparr>locked_until := Some 100\<rparr>"
  let ?four = "[(login_req ''User@Example.com'' ''Wrong1Pass'', 1, 2),
            (login_req ''User@Example.com'' ''Wrong2Pass'', 1, 2),
            (login_req ''User@Example.com'' ''Wrong3Pass'', 1, 2),
            (login_req ''User@Example.com'' ''Wrong4Pass'', 1::int, 2::int)]"
  let ?d5 = "login_req ''User@Example.com'' ''Wrong5Pass''"
  have a: ?A
    using locked_account_refused [of ?good "ustr ''user@example.com''" "ustr ''Valid1Pass''"
        stub_lib "[?locked]" ?locked 100 99 99]
    by (simp add: run_defs)
  have hyp: "find (\<lambda>r. email r = ustr ''user@example.com'') [ann] = Some ann
        \<and> get_failed_login_attempts ann = 0 \<and> locked_until ann = None
        \<and> password ann = Some (ustr ''$$Valid1Pass'')
        \<and> length ?four = 4
        \<and> (\<forall>(d, t1, t2) \<in> set (?four @ [(?d5, 3, 4)]). \<exists>raw p.
              login_email d = Some raw \<and> raw \<noteq> []
              \<and> normalize_email stub_lib raw = ustr ''user@example.com''
              \<and> login_password d = Some p \<and> p \<noteq> []
              \<and> check_password stub_lib p (ustr ''$$Valid1Pass'') = Inr False)
        \<and> login_email ?good = Some (ustr ''user@example.com'') \<and> ustr ''user@example.com'' \<noteq> []
        \<and> normalize_email stub_lib (ustr ''user@example.com'') = ustr ''user@example.com''
        \<and> login_password ?good = Some (ustr ''Valid1Pass'') \<and> ustr ''Valid1Pass'' \<noteq> []
        \<and> check_password stub_lib (ustr ''Valid1Pass'') (ustr ''$$Valid1Pass'') = Inr True
        \<and> create_access_token stub_lib (uid ann) (timedelta_hours 24) = Inr (ustr ''1'')"
    by (simp add: run_defs)
  have concl: "let users5 = run_logins stub_lib [ann] (?four @ [(?d5, 3, 4)]);
              lock_end = 4 + 30 * 60 * 1000000
          in (\<exists>u5. find (\<lambda>r. email r = ustr ''user@example.com'') users5 = Some u5
                \<and> failed_login_attempts u5 = Some 5 \<and> locked_until u5 = Some lock_end)
           \<and> (\<forall>t t'. t < lock_end \<longrightarrow>
                login stub_lib users5 ?good t t' =
                  (Error 423 ''Account temporarily locked due to failed login attempts'',
                   users5))
           \<and> (\<forall>t t'. lock_end \<le> t \<longrightarrow>
                (\<exists>users6 u6.
                   login stub_lib users5 ?good t t' =
                     (LoggedIn (ustr ''1'') (uid ann) (name ann) (email ann) (user_type ann), users6)
                   \<and> find (\<lambda>r. email r = ustr ''user@example.com'') users6 = Some u6
                   \<and> failed_login_attempts u6 = Some 0 \<and> locked_until u6 = None
                   \<and> last_login u6 = Some t'))"
    using locked_account_refused [of _ _ _ stub_lib _ _ _ _ _ "ustr ''user@example.com''" "[ann]" ann
        "ustr ''$$Valid1Pass''" ?four ?d5 3 4 ?good "ustr ''user@example.com''"
        "ustr ''Valid1Pass''" "ustr ''1''"] hyp
    by blast
  have b: ?B
  proof -
    have "(1800000003::int) < 4 + 30 * 60 * 1000000" by simp
    with concl show ?thesis unfolding Let_def by (metis append_Cons append_Nil fst_conv)
  qed
  have c: ?C
  proof -
    have "(4::int) + 30 * 60 * 1000000 \<le> 1800000004" by simp
    with concl obtain users6 where
      "login stub_lib (run_logins stub_lib [ann] (?four @ [(?d5, 3, 4)])) ?good 1800000004 1800000005
         = (LoggedIn (ustr ''1'') (uid ann) (name ann) (email ann) (user_type ann), users6)"
      unfolding Let_def by blast
    then show ?thesis by (simp add: ann_def)
  qed
  from a b c show ?thesis by blast
qed

text \<open>
  C2 as stated covers every password, the empty one too. The account below is locked
  until time 100; at time 1 an attempt with the empty password is answered 400 by the
  required-fields test, not 423.
\<close>

theorem login_locked_empty_password:
  "locked_until (ann\<lparr>locked_until := Some 100\<rparr>) = Some 100 \<and> (1::int) < 100
   \<and> login stub_lib [ann\<lparr>locked_until := Some 100\<rparr>] (login_req ''user@example.com'' []) 1 2 =
       (Error 400 ''Email and password are required'', [ann\<lparr>locked_until := Some 100\<rparr>])"
  by (simp add: login_def falsy_def run_defs)

subsection \<open>Successful login\<close>

text \<open>
  C6. Every successful login resets the counter and records the time. Whenever
  \<^verbatim>\<open>login\<close> answers with its success response, the store after the call is the store
  before it with one record changed, the first one whose e-mail is the normalised e-mail
  of the request, and in that record \<^verbatim>\<open>failed_login_attempts\<close> is 0 and
  \<^verbatim>\<open>last_login\<close> is the clock reading of the write. Conversely, when e-mail and
  password are supplied, the account exists, is not locked and the password verifies,
  the store is updated in this way, and the response is the success response as soon as
  the token library returns a token.
\<close>

theorem login_success_resets:
  "(login lib users data now_check now_write = (LoggedIn tok i n e t, users')
     \<longrightarrow> (\<exists>raw k u. login_email data = Some raw
            \<and> first_index (\<lambda>r. email r = normalize_email lib raw) users = Some k
            \<and> k < length users \<and> users ! k = u
            \<and> users' = users[k := u\<lparr>failed_login_attempts := Some 0, locked_until := None,
                                     last_login := Some now_write\<rparr>]
            \<and> failed_login_attempts (users' ! k) = Some 0
            \<and> last_login (users' ! k) = Some now_write))
   \<and> (login_email data = Some raw \<and> raw \<noteq> [] \<and> login_password data = Some pw \<and> pw \<noteq> []
        \<and> find (\<lambda>r. email r = normalize_email lib raw) users = Some u
        \<and> \<not> is_locked u now_check \<and> password u = Some hashed
        \<and> check_password lib pw hashed = Inr True
     \<longrightarrow> (\<exists>k. first_index (\<lambda>r. email r = normalize_email lib raw) users = Some k
            \<and> k < length users \<and> users ! k = u
            \<and> snd (login lib users data now_check now_write) =
                users[k := u\<lparr>failed_login_attempts := Some 0, locked_until := None,
                              last_login := Some now_write\<rparr>]
            \<and> (\<forall>token. create_access_token lib (uid u) (timedelta_hours 24) = Inr token \<longrightarrow>
                  fst (login lib users data now_check now_write) =
                    LoggedIn token (uid u) (name u) (email u) (user_type u))))"
proof (intro conjI impI)
  assume ok: "login lib users data now_check now_write = (LoggedIn tok i n e t, users')"
  from login_success_cases [OF ok] obtain raw pw u hashed where c:
    "login_email data = Some raw" "raw \<noteq> []" "login_password data = Some pw" "pw \<noteq> []"
    "find (\<lambda>r. email r = normalize_email lib raw) users = Some u"
    "\<not> is_locked u now_check" "password u = Some hashed"
    "check_password lib pw hashed = Inr True"
    by blast
  from c(5) obtain k where k: "first_index (\<lambda>r. email r = normalize_email lib raw) users = Some k"
      "k < length users" "users ! k = u"
    using find_first_index by fastforce
  have "users' = users[k := u\<lparr>failed_login_attempts := Some 0, locked_until := None,
                                last_login := Some now_write\<rparr>]"
    using login_right_step [OF c, of now_write] ok k by (simp add: update_by_email_def)
  with c(1) k show "\<exists>raw k u. login_email data = Some raw
            \<and> first_index (\<lambda>r. email r = normalize_email lib raw) users = Some k
            \<and> k < length users \<and> users ! k = u
            \<and> users' = users[k := u\<lparr>failed_login_attempts := Some 0, locked_until := None,
                                     last_login := Some now_write\<rparr>]
            \<and> failed_login_attempts (users' ! k) = Some 0
            \<and> last_login (users' ! k) = Some now_write"
    by auto
next
  assume h: "login_email data = Some raw \<and> raw \<noteq> [] \<and> login_password data = Some pw \<and> pw \<noteq> []
        \<and> find (\<lambda>r. email r = normalize_email lib raw) users = Some u
        \<and> \<not> is_locked u now_check \<and> password u = Some hashed
        \<and> check_password lib pw hashed = Inr True"
  then obtain k where k: "first_index (\<lambda>r. email r = normalize_email lib raw) users = Some k"
      "k < length users" "users ! k = u"
    using find_first_index by fastforce
  from h have "login lib users data now_check now_write =
      (case create_access_token lib (uid u) (timedelta_hours 24) of
         Inl ex \<Rightarrow> ServerError ex
       | Inr access_token \<Rightarrow> LoggedIn access_token (uid u) (name u) (email u) (user_type u),
       update_by_email (normalize_email lib raw)
         (\<lambda>r. r\<lparr>failed_login_attempts := Some 0, locked_until := None,
                 last_login := Some now_write\<rparr>) users)"
    by (intro login_right_step) auto
  with k show "\<exists>k. first_index (\<lambda>r. email r = normalize_email lib raw) users = Some k
            \<and> k < length users \<and> users ! k = u
            \<and> snd (login lib users data now_check now_write) =
                users[k := u\<lparr>failed_login_attempts := Some 0, locked_until := None,
                              last_login := Some now_write\<rparr>]
            \<and> (\<forall>token. create_access_token lib (uid u) (timedelta_hours 24) = Inr token \<longrightarrow>
                  fst (login lib users data now_check now_write) =
                    LoggedIn token (uid u) (name u) (email u) (user_type u))"
    by (simp add: update_by_email_def)
qed

theorem login_success_resets_witness:
  "login stub_lib [ann\<lparr>failed_login_attempts := Some 3\<rparr>]
     (login_req ''User@Example.com'' ''Valid1Pass'') 7 8 =
     (LoggedIn (ustr ''1'') (ustr ''1'') (ustr ''Ann'') (ustr ''user@example.com'')
        (ustr ''member''),
      [ann\<lparr>failed_login_attempts := Some 0, locked_until := None, last_login := Some 8\<rparr>])"
proof -
  let ?u = "ann\<lparr>failed_login_attempts := Some 3\<rparr>"
  let ?data = "login_req ''User@Example.com'' ''Valid1Pass''"
  have hyp: "login_email ?data = Some (ustr ''User@Example.com'') \<and> ustr ''User@Example.com'' \<noteq> []
        \<and> login_password ?data = Some (ustr ''Valid1Pass'') \<and> ustr ''Valid1Pass'' \<noteq> []
        \<and> find (\<lambda>r. email r = normalize_email stub_lib (ustr ''User@Example.com'')) [?u] = Some ?u
        \<and> \<not> is_locked ?u 7 \<and> password ?u = Some (ustr ''$$Valid1Pass'')
        \<and> check_password stub_lib (ustr ''Valid1Pass'') (ustr ''$$Valid1Pass'') = Inr True"
    by (simp add: run_defs)
  have tok: "create_access_token stub_lib (uid ?u) (timedelta_hours 24) = Inr (ustr ''1'')"
    by (simp add: run_defs)
  from login_success_resets [of stub_lib "[?u]" ?data 7 8 _ _ _ _ _ _
      "ustr ''User@Example.com''" "ustr ''Valid1Pass''" ?u "ustr ''$$Valid1Pass''"] hyp
  obtain k where k: "k < length [?u]"
      "snd (login stub_lib [?u] ?data 7 8) =
         [?u][k := ?u\<lparr>failed_login_attempts := Some 0, locked_until := None,
                       last_login := Some 8\<rparr>]"
      "\<forall>token. create_access_token stub_lib (uid ?u) (timedelta_hours 24) = Inr token \<longrightarrow>
          fst (login stub_lib [?u] ?data 7 8) =
            LoggedIn token (uid ?u) (name ?u) (email ?u) (user_type ?u)"
    by blast
  from k(3) tok have "fst (login stub_lib [?u] ?data 7 8) =
      LoggedIn (ustr ''1'') (uid ?u) (name ?u) (email ?u) (user_type ?u)" by blast
  with k(1,2) show ?thesis by (simp add: prod_eq_iff ann_def)
qed

text \<open>
  C10. A successful login writes exactly three keys of the stored record of the account
  that logged in. Whenever \<^verbatim>\<open>login\<close> answers with its success response, the record
  concerned is the first record of the store whose e-mail is the normalised e-mail of
  the request, and it is the account whose id, name, e-mail and user type the response
  carries. The store after the call is the store before it with that record, and no
  other, changed: its \<^verbatim>\<open>failed_login_attempts\<close> is 0, its \<^verbatim>\<open>locked_until\<close> is
  cleared to \<^verbatim>\<open>None\<close> and its \<^verbatim>\<open>last_login\<close> is the clock reading of the write,
  while its id, name, e-mail, password hash, user type, authentication method, status
  and creation time are unchanged. The store keeps its length and every other record,
  among them the locks and counters of the other accounts.
\<close>

theorem login_success_frame:
  assumes "login lib users data now_check now_write = (LoggedIn tok i n e t, users')"
  shows "\<exists>raw k. login_email data = Some raw
     \<and> first_index (\<lambda>r. email r = normalize_email lib raw) users = Some k
     \<and> k < length users
     \<and> email (users ! k) = normalize_email lib raw
     \<and> (\<forall>j<k. email (users ! j) \<noteq> normalize_email lib raw)
     \<and> i = uid (users ! k) \<and> n = name (users ! k) \<and> e = email (users ! k)
     \<and> t = user_type (users ! k)
     \<and> users' = users[k := (users ! k)\<lparr>failed_login_attempts := Some 0, locked_until := None,
                                          last_login := Some now_write\<rparr>]
     \<and> length users' = length users
     \<and> (\<forall>j<length users. j \<noteq> k \<longrightarrow> users' ! j = users ! j)
     \<and> failed_login_attempts (users' ! k) = Some 0
     \<and> locked_until (users' ! k) = None
     \<and> last_login (users' ! k) = Some now_write
     \<and> uid (users' ! k) = uid (users ! k)
     \<and> name (users' ! k) = name (users ! k)
     \<and> email (users' ! k) = email (users ! k)
     \<and> password (users' ! k) = password (users ! k)
     \<and> user_type (users' ! k) = user_type (users ! k)
     \<and> auth_method (users' ! k) = auth_method (users ! k)
     \<and> status (users' ! k) = status (users ! k)
     \<and> created_at (users' ! k) = created_at (users ! k)"
proof -
  from login_success_cases [OF assms] obtain raw pw u hashed where c:
    "login_email data = Some raw" "raw \<noteq> []" "login_password data = Some pw" "pw \<noteq> []"
    "find (\<lambda>r. email r = normalize_email lib raw) users = Some u"
    "\<not> is_locked u now_check" "password u = Some hashed"
    "check_password lib pw hashed = Inr True"
    by blast
  let ?e = "normalize_email lib raw"
  from c(5) obtain k where k: "first_index (\<lambda>r. email r = ?e) users = Some k"
      "k < length users" "users ! k = u"
    using find_first_index by fastforce
  from first_index_first [OF k(1)]
  have first: "email (users ! k) = ?e" "\<forall>j<k. email (users ! j) \<noteq> ?e"
    by auto
  have run: "login lib users data now_check now_write =
      (case create_access_token lib (uid u) (timedelta_hours 24) of
         Inl ex \<Rightarrow> ServerError ex
       | Inr access_token \<Rightarrow> LoggedIn access_token (uid u) (name u) (email u) (user_type u),
       update_by_email ?e
         (\<lambda>r. r\<lparr>failed_login_attempts := Some 0, locked_until := None,
                 last_login := Some now_write\<rparr>) users)"
    by (rule login_right_step [OF c])
  have eq: "users' = users[k := (users ! k)\<lparr>failed_login_attempts := Some 0,
                                    locked_until := None, last_login := Some now_write\<rparr>]"
    using run assms k by (simp add: update_by_email_def)
  have resp: "i = uid (users ! k) \<and> n = name (users ! k) \<and> e = email (users ! k)
      \<and> t = user_type (users ! k)"
    using run assms k(3) by (auto split: sum.splits)
  have len: "length users' = length users" by (simp add: eq)
  have others: "\<forall>j<length users. j \<noteq> k \<longrightarrow> users' ! j = users ! j"
    by (simp add: eq)
  have fields: "failed_login_attempts (users' ! k) = Some 0
     \<and> locked_until (users' ! k) = None
     \<and> last_login (users' ! k) = Some now_write
     \<and> uid (users' ! k) = uid (users ! k)
     \<and> name (users' ! k) = name (users ! k)
     \<and> email (users' ! k) = email (users ! k)
     \<and> password (users' ! k) = password (users ! k)
     \<and> user_type (users' ! k) = user_type (users ! k)
     \<and> auth_method (users' ! k) = auth_method (users ! k)
     \<and> status (users' ! k) = status (users ! k)
     \<and> created_at (users' ! k) = created_at (users ! k)"
    using k(2) by (simp add: eq)
  from c(1) k(1,2) first resp eq len others fields show ?thesis by blast
qed

theorem login_success_frame_witness:
  "login stub_lib [mallory, ann\<lparr>failed_login_attempts := Some 3\<rparr>]
      (login_req ''User@Example.com'' ''Valid1Pass'') 100 101 =
     (LoggedIn (ustr ''1'') (ustr ''1'') (ustr ''Ann'') (ustr ''user@example.com'')
        (ustr ''member''),
      [mallory,
       ann\<lparr>failed_login_attempts := Some 0, locked_until := None, last_login := Some 101\<rparr>])
   \<and> [mallory,
       ann\<lparr>failed_login_attempts := Some 0, locked_until := None, last_login := Some 101\<rparr>] ! 0
       = [mallory, ann\<lparr>failed_login_attempts := Some 3\<rparr>] ! 0
   \<and> locked_until mallory = Some 500 \<and> failed_login_attempts mallory = Some 5"
proof -
  let ?users = "[mallory, ann\<lparr>failed_login_attempts := Some 3\<rparr>]"
  let ?users' = "[mallory,
       ann\<lparr>failed_login_attempts := Some 0, locked_until := None, last_login := Some 101\<rparr>]"
  let ?data = "login_req ''User@Example.com'' ''Valid1Pass''"
  have run: "login stub_lib ?users ?data 100 101 =
     (LoggedIn (ustr ''1'') (ustr ''1'') (ustr ''Ann'') (ustr ''user@example.com'')
        (ustr ''member''), ?users')"
    by (simp add: login_def falsy_def Let_def update_by_email_def timedelta_hours_def
        mallory_def run_defs)
  from login_success_frame [OF run] obtain raw k where f:
      "login_email ?data = Some raw"
      "first_index (\<lambda>r. email r = normalize_email stub_lib raw) ?users = Some k"
      "\<forall>j<length ?users. j \<noteq> k \<longrightarrow> ?users' ! j = ?users ! j"
    by blast
  from f(1) have raw: "raw = ustr ''User@Example.com''" by (simp add: login_req_def)
  from f(2) have k: "k = 1" unfolding raw by (simp add: mallory_def run_defs)
  from f(3) k have "?users' ! 0 = ?users ! 0" by simp
  with run show ?thesis by (simp add: mallory_def)
qed

subsection \<open>Uniform failure response\<close>

text \<open>
  C5, for supplied credentials. Let a login call supply an e-mail and a password, both
  present and non-empty. If no account has the normalised e-mail, the response is 401
  with the message Invalid email or password and the store is unchanged. If the account exists, is not
  locked and the password check fails, the response is the same 401 with the same
  message. So the same request gets equal responses from a store without the account
  and from a store where the account exists and the password is wrong. The response
  is the 423 of a locked account exactly when the account for the normalised e-mail
  exists and is locked at the clock reading of the lock test, and that response differs
  from the 401.
\<close>

theorem login_invalid_credentials_uniform:
  assumes "login_email data = Some raw" "raw \<noteq> []"
    and "login_password data = Some pw" "pw \<noteq> []"
  shows "(find (\<lambda>r. email r = normalize_email lib raw) absent = None \<longrightarrow>
            login lib absent data a1 a2 = (Error 401 ''Invalid email or password'', absent))
    \<and> (find (\<lambda>r. email r = normalize_email lib raw) present = Some u
         \<and> \<not> is_locked u b1 \<and> password u = Some hashed
         \<and> check_password lib pw hashed = Inr False \<longrightarrow>
            fst (login lib present data b1 b2) = Error 401 ''Invalid email or password'')
    \<and> (find (\<lambda>r. email r = normalize_email lib raw) absent = None
         \<and> find (\<lambda>r. email r = normalize_email lib raw) present = Some u
         \<and> \<not> is_locked u b1 \<and> password u = Some hashed
         \<and> check_password lib pw hashed = Inr False \<longrightarrow>
            fst (login lib absent data a1 a2) = fst (login lib present data b1 b2))
    \<and> (fst (login lib users data c1 c2) =
            Error 423 ''Account temporarily locked due to failed login attempts''
         \<longleftrightarrow> (\<exists>v. find (\<lambda>r. email r = normalize_email lib raw) users = Some v
                  \<and> is_locked v c1))
    \<and> Error 423 ''Account temporarily locked due to failed login attempts''
         \<noteq> Error 401 ''Invalid email or password''"
proof -
  have none: "login lib absent data a1 a2 = (Error 401 ''Invalid email or password'', absent)"
    if "find (\<lambda>r. email r = normalize_email lib raw) absent = None"
    using that assms by (simp add: login_def falsy_def normalize_email_def Let_def)
  have wrong: "fst (login lib present data b1 b2) = Error 401 ''Invalid email or password''"
    if "find (\<lambda>r. email r = normalize_email lib raw) present = Some u
         \<and> \<not> is_locked u b1 \<and> password u = Some hashed
         \<and> check_password lib pw hashed = Inr False"
    using that login_wrong_step [of data raw pw lib present u b1 hashed b2] assms by simp
  have locked: "fst (login lib users data c1 c2) =
            Error 423 ''Account temporarily locked due to failed login attempts''
         \<longleftrightarrow> (\<exists>v. find (\<lambda>r. email r = normalize_email lib raw) users = Some v
                  \<and> is_locked v c1)"
    using assms
    by (auto simp: login_def falsy_def normalize_email_def Let_def
        split: option.splits sum.splits)
  from none wrong locked show ?thesis by simp
qed

theorem login_invalid_credentials_uniform_witness:
  "login stub_lib [] (login_req ''User@Example.com'' ''Wrong1Pass'') 1 2 =
     (Error 401 ''Invalid email or password'', [])
   \<and> fst (login stub_lib [ann] (login_req ''User@Example.com'' ''Wrong1Pass'') 1 2) =
     Error 401 ''Invalid email or password''
   \<and> fst (login stub_lib [ann\<lparr>locked_until := Some 9\<rparr>]
            (login_req ''User@Example.com'' ''Wrong1Pass'') 1 2) =
     Error 423 ''Account temporarily locked due to failed login attempts''"
  using login_invalid_credentials_uniform [of "login_req ''User@Example.com'' ''Wrong1Pass''"
      "ustr ''User@Example.com''" "ustr ''Wrong1Pass''" stub_lib "[]" 1 2 "[ann]" ann 1
      "ustr ''$$Valid1Pass''" 2 "[ann\<lparr>locked_until := Some 9\<rparr>]" 1 2]
  by (simp add: run_defs)

text \<open>
  C5 as stated covers every login call. On the empty store no account matches any
  e-mail, yet a call with the empty password is answered 400 by the required-fields
  test, not with the 401 of invalid credentials.
\<close>

theorem login_unknown_email_empty_password:
  "login stub_lib [] (login_req ''nobody@example.com'' []) 1 2 =
     (Error 400 ''Email and password are required'', [])"
  by (simp add: login_def falsy_def run_defs)

subsection \<open>Order of the checks of change\_password\<close>

text \<open>
  C3, as the code has it. When both passwords are supplied (present and non-empty),
  \<^verbatim>\<open>change_password\<close> fails in this order: first with the 400 response that carries
  the reason of \<^verbatim>\<open>validate_password\<close> when the new password is weak, whether or not
  the account exists and whatever the current password; then with 404, user not found,
  when no account has the caller's id; then with 401, current password is incorrect,
  when the current password does not verify against the stored hash. No failure changes
  the store.
\<close>

theorem change_password_check_order:
  assumes "current_password data = Some cur" "cur \<noteq> []"
    and "new_password data = Some new" "new \<noteq> []"
  shows "(\<not> fst (validate_password lib new) \<longrightarrow>
            change_password lib users user_id data salt =
              (Error 400 (snd (validate_password lib new)), users))
    \<and> (fst (validate_password lib new) \<and> find (\<lambda>r. uid r = user_id) users = None \<longrightarrow>
            change_password lib users user_id data salt = (Error 404 ''User not found'', users))
    \<and> (fst (validate_password lib new) \<and> find (\<lambda>r. uid r = user_id) users = Some u
         \<and> password u = Some hashed \<and> check_password lib cur hashed = Inr False \<longrightarrow>
            change_password lib users user_id data salt =
              (Error 401 ''Current password is incorrect'', users))"
  using assms by (simp add: change_password_def falsy_def)

theorem change_password_check_order_witness:
  "change_password stub_lib [ann] (ustr ''1'') (change_req ''Wrong1Pass'' ''weak'') (ustr ''$$'') =
     (Error 400 ''Password must be at least 8 characters long'', [ann])
   \<and> change_password stub_lib [ann] (ustr ''2'') (change_req ''Wrong1Pass'' ''Newer2Pass'')
        (ustr ''$$'') = (Error 404 ''User not found'', [ann])
   \<and> change_password stub_lib [ann] (ustr ''1'') (change_req ''Wrong1Pass'' ''Newer2Pass'')
        (ustr ''$$'') = (Error 401 ''Current password is incorrect'', [ann])"
  using change_password_check_order [of "change_req ''Wrong1Pass'' ''weak''" "ustr ''Wrong1Pass''"
      "ustr ''weak''" stub_lib "[ann]" "ustr ''1''" "ustr ''$$''"]
    change_password_check_order [of "change_req ''Wrong1Pass'' ''Newer2Pass''" "ustr ''Wrong1Pass''"
      "ustr ''Newer2Pass''" stub_lib "[ann]" "ustr ''2''" "ustr ''$$''"]
    change_password_check_order [of "change_req ''Wrong1Pass'' ''Newer2Pass''" "ustr ''Wrong1Pass''"
      "ustr ''Newer2Pass''" stub_lib "[ann]" "ustr ''1''" "ustr ''$$''" ann "ustr ''$$Valid1Pass''"]
  by (simp add: change_req_def validate_password_def re_search_def run_defs)

text \<open>
  C3 as stated puts the strength check last. On the store that holds the account with
  id 1, a wrong current password and the weak new password \<^verbatim>\<open>weak\<close> are answered
  with the strength reason, not with the 401 of a wrong current password; and on the
  empty store, where no account has that id, the answer is the strength reason too, not
  the 404.
\<close>

theorem change_password_weak_before_credentials:
  "uid ann = ustr ''1''
   \<and> check_password stub_lib (ustr ''Wrong1Pass'') (ustr ''$$Valid1Pass'') = Inr False
   \<and> password ann = Some (ustr ''$$Valid1Pass'')
   \<and> fst (validate_password stub_lib (ustr ''weak'')) = False
   \<and> change_password stub_lib [ann] (ustr ''1'') (change_req ''Wrong1Pass'' ''weak'') (ustr ''$$'')
       = (Error 400 ''Password must be at least 8 characters long'', [ann])
   \<and> change_password stub_lib [] (ustr ''1'') (change_req ''Wrong1Pass'' ''weak'') (ustr ''$$'')
       = (Error 400 ''Password must be at least 8 characters long'', [])"
  by (simp add: change_password_def change_req_def falsy_def validate_password_def re_search_def
      run_defs)

subsection \<open>Failures of change\_password leave the store alone\<close>

text \<open>
  C7, with the new password supplied. Every call of \<^verbatim>\<open>change_password\<close> that does not
  answer with its success message leaves the store unchanged; so does every call whose
  new password is weak. When both passwords are supplied (present and non-empty) and
  the new one is weak, whether or not the current one is correct, the response is 400
  with the reason of the first strength rule that fails, which is one of the four
  reasons of \<^verbatim>\<open>validate_password\<close>.
\<close>

theorem change_password_error_keeps_record:
  "(fst (change_password lib users user_id data salt) \<noteq> Message ''Password changed successfully''
      \<longrightarrow> snd (change_password lib users user_id data salt) = users)
   \<and> (\<forall>new. new_password data = Some new \<and> \<not> fst (validate_password lib new) \<longrightarrow>
          snd (change_password lib users user_id data salt) = users)
   \<and> (\<forall>cur new. current_password data = Some cur \<and> cur \<noteq> []
          \<and> new_password data = Some new \<and> new \<noteq> []
          \<and> \<not> fst (validate_password lib new) \<longrightarrow>
          change_password lib users user_id data salt =
            (Error 400 (snd (validate_password lib new)), users)
          \<and> snd (validate_password lib new) \<in>
              {''Password must be at least 8 characters long'',
               ''Password must contain at least one uppercase letter'',
               ''Password must contain at least one lowercase letter'',
               ''Password must contain at least one number''})"
proof (intro conjI allI impI)
  assume "fst (change_password lib users user_id data salt) \<noteq>
            Message ''Password changed successfully''"
  then show "snd (change_password lib users user_id data salt) = users"
    by (rule change_password_keeps_store)
next
  fix new
  assume "new_password data = Some new \<and> \<not> fst (validate_password lib new)"
  then have "fst (change_password lib users user_id data salt) \<noteq>
               Message ''Password changed successfully''"
    by (auto simp: change_password_def split: if_splits)
  then show "snd (change_password lib users user_id data salt) = users"
    by (rule change_password_keeps_store)
next
  fix cur new
  assume h: "current_password data = Some cur \<and> cur \<noteq> []
          \<and> new_password data = Some new \<and> new \<noteq> []
          \<and> \<not> fst (validate_password lib new)"
  then show "change_password lib users user_id data salt =
            (Error 400 (snd (validate_password lib new)), users)"
    by (intro change_password_weak) auto
  from h show "snd (validate_password lib new) \<in>
              {''Password must be at least 8 characters long'',
               ''Password must contain at least one uppercase letter'',
               ''Password must contain at least one lowercase letter'',
               ''Password must contain at least one number''}"
    by (intro validate_password_reason) auto
qed

theorem change_password_error_keeps_record_witness:
  "check_password stub_lib (ustr ''Valid1Pass'') (ustr ''$$Valid1Pass'') = Inr True
   \<and> change_password stub_lib [ann] (ustr ''1'') (change_req ''Valid1Pass'' ''nouppercase1'')
        (ustr ''$$'') =
     (Error 400 ''Password must contain at least one uppercase letter'', [ann])"
  using change_password_error_keeps_record [of stub_lib "[ann]" "ustr ''1''"
      "change_req ''Valid1Pass'' ''nouppercase1''" "ustr ''$$''"]
  by (simp add: change_req_def validate_password_def re_search_def run_defs)

text \<open>
  C7 as stated also covers the empty new password, which is weak (it is shorter than 8
  characters). With the correct current password the store is unchanged, but the
  response is that both passwords are required, which names no strength rule.
\<close>

theorem change_password_empty_new_password:
  "check_password stub_lib (ustr ''Valid1Pass'') (ustr ''$$Valid1Pass'') = Inr True
   \<and> validate_password stub_lib [] = (False, ''Password must be at least 8 characters long'')
   \<and> change_password stub_lib [ann] (ustr ''1'') (change_req ''Valid1Pass'' []) (ustr ''$$'') =
     (Error 400 ''Current password and new password are required'', [ann])"
  by (simp add: change_password_def change_req_def falsy_def validate_password_def run_defs)

subsection \<open>Exceptions of the password check\<close>

text \<open>
  C4, as the code has it. \<^verbatim>\<open>check_password\<close> catches nothing. It returns a boolean
  exactly when the password encodes to UTF-8 and \<^verbatim>\<open>bcrypt.checkpw\<close> returns that
  boolean for the encoded password and the stored hash. A password that holds a
  surrogate code point raises UnicodeEncodeError whatever the hash, and every exception
  that \<^verbatim>\<open>bcrypt.checkpw\<close> raises, for a malformed hash or anything else, comes out
  of \<^verbatim>\<open>check_password\<close> unchanged. In \<^verbatim>\<open>login\<close> such an exception reaches the outer
  handler: the response is the 500 with the exception and the store is unchanged.
\<close>

theorem check_password_propagates:
  "(check_password lib pass hashed = Inr b \<longleftrightarrow>
      (\<exists>pw. encode_utf8 pass = Inr pw \<and> bcrypt_checkpw lib pw hashed = Inr b))
   \<and> ((\<exists>c\<in>set pass. 55296 \<le> c \<and> c \<le> 57343) \<longrightarrow>
        (\<exists>c. check_password lib pass hashed = Inl (UnicodeEncodeError c)))
   \<and> (\<forall>pw ex. encode_utf8 pass = Inr pw \<and> bcrypt_checkpw lib pw hashed = Inl ex \<longrightarrow>
        check_password lib pass hashed = Inl ex)
   \<and> (\<forall>raw u ex. login_email data = Some raw \<and> raw \<noteq> []
         \<and> login_password data = Some pass \<and> pass \<noteq> []
         \<and> find (\<lambda>r. email r = normalize_email lib raw) users = Some u
         \<and> \<not> is_locked u now_check \<and> password u = Some hashed
         \<and> check_password lib pass hashed = Inl ex \<longrightarrow>
        login lib users data now_check now_write = (ServerError ex, users))"
proof (intro conjI allI impI)
  show "check_password lib pass hashed = Inr b \<longleftrightarrow>
      (\<exists>pw. encode_utf8 pass = Inr pw \<and> bcrypt_checkpw lib pw hashed = Inr b)"
    by (auto simp: check_password_def split: sum.splits)
next
  assume "\<exists>c\<in>set pass. 55296 \<le> c \<and> c \<le> 57343"
  then obtain c where "encode_utf8 pass = Inl (UnicodeEncodeError c)"
    using encode_utf8_raises [of pass] by blast
  then show "\<exists>c. check_password lib pass hashed = Inl (UnicodeEncodeError c)"
    by (auto simp: check_password_def)
next
  fix pw ex
  assume "encode_utf8 pass = Inr pw \<and> bcrypt_checkpw lib pw hashed = Inl ex"
  then show "check_password lib pass hashed = Inl ex"
    by (simp add: check_password_def)
next
  fix raw u ex
  assume "login_email data = Some raw \<and> raw \<noteq> []
         \<and> login_password data = Some pass \<and> pass \<noteq> []
         \<and> find (\<lambda>r. email r = normalize_email lib raw) users = Some u
         \<and> \<not> is_locked u now_check \<and> password u = Some hashed
         \<and> check_password lib pass hashed = Inl ex"
  then show "login lib users data now_check now_write = (ServerError ex, users)"
    by (simp add: login_def falsy_def normalize_email_def Let_def)
qed

theorem check_password_propagates_witness:
  "check_password stub_lib (ustr ''Valid1Pass'') (ustr ''$$Valid1Pass'') = Inr True
   \<and> check_password
        (stub_lib\<lparr>bcrypt_checkpw := (\<lambda>pw hashed. Inl (LibraryError ''Invalid salt''))\<rparr>)
        (ustr ''Valid1Pass'') (ustr ''garbage'') = Inl (LibraryError ''Invalid salt'')
   \<and> login stub_lib [ann] \<lparr>login_email = Some (ustr ''user@example.com''),
                             login_password = Some [55296]\<rparr> 1 2 =
       (ServerError (UnicodeEncodeError 55296), [ann])"
proof -
  have a: "check_password stub_lib (ustr ''Valid1Pass'') (ustr ''$$Valid1Pass'') = Inr True"
    using check_password_propagates [of stub_lib "ustr ''Valid1Pass''" "ustr ''$$Valid1Pass''" True]
    by (simp add: ustr_def utf8_char_def stub_lib_def)
  let ?lib = "stub_lib\<lparr>bcrypt_checkpw := (\<lambda>pw hashed. Inl (LibraryError ''Invalid salt''))\<rparr>"
  have b: "check_password ?lib (ustr ''Valid1Pass'') (ustr ''garbage'') =
             Inl (LibraryError ''Invalid salt'')"
    using check_password_propagates [of ?lib "ustr ''Valid1Pass''" "ustr ''garbage''"]
    by (simp add: ustr_def utf8_char_def stub_lib_def)
  let ?data = "\<lparr>login_email = Some (ustr ''user@example.com''), login_password = Some [55296]\<rparr>"
  have c: "login stub_lib [ann] ?data 1 2 = (ServerError (UnicodeEncodeError 55296), [ann])"
    using check_password_propagates [of stub_lib "[55296]" "ustr ''$$Valid1Pass''" _ ?data "[ann]" 1 2]
    by (simp add: run_defs)
  from a b c show ?thesis by simp
qed

text \<open>
  C4 as stated promises a boolean for every password string. The one-character string
  with code point U+D800 raises instead, here against a well-formed hash and a library
  that never raises.
\<close>

theorem check_password_surrogate_raises:
  "check_password stub_lib [55296] (ustr ''$$Valid1Pass'') = Inl (UnicodeEncodeError 55296)"
  by (simp add: check_password_def utf8_char_def)

subsection \<open>Registering an e-mail twice\<close>

text \<open>
  C9, for a request that passes the checks before the store is consulted. Let a
  registration request have a non-empty name, an e-mail that matches the pattern of
  \<^verbatim>\<open>validate_email\<close> as it was sent, and a password that passes
  \<^verbatim>\<open>validate_password\<close> and that the hasher accepts. If the store holds an account
  whose e-mail is the normalised (lower-cased, trimmed) e-mail of the request, the
  response is 400, e-mail already registered, and the store is unchanged. In particular
  this is so in the store left by a successful registration whose e-mail has the same
  normalised form: User@Example.com and then user@example.com.
\<close>

theorem register_duplicate_email:
  assumes "reg_name second = Some nm" "nm \<noteq> []"
    and "reg_email second = Some raw2" "validate_email raw2"
    and "reg_password second = Some pw" "fst (validate_password lib pw)"
    and "hash_password lib salt2 pw = Inr hashed"
  shows "((\<exists>r\<in>set users. email r = normalize_email lib raw2) \<longrightarrow>
            register lib users second salt2 t2 = (Error 400 ''Email already registered'', users))
    \<and> (register lib users0 first salt1 t1 = (Created i1 tok1 n1 e1 ut1, users1)
         \<and> reg_email first = Some raw1
         \<and> normalize_email lib raw2 = normalize_email lib raw1 \<longrightarrow>
            register lib users1 second salt2 t2 = (Error 400 ''Email already registered'', users1))"
proof (intro conjI impI)
  assume "\<exists>r\<in>set users. email r = normalize_email lib raw2"
  with assms show "register lib users second salt2 t2 =
      (Error 400 ''Email already registered'', users)"
    by (intro register_duplicate)
next
  assume h: "register lib users0 first salt1 t1 = (Created i1 tok1 n1 e1 ut1, users1)
         \<and> reg_email first = Some raw1
         \<and> normalize_email lib raw2 = normalize_email lib raw1"
  then have "\<exists>r\<in>set users1. email r = normalize_email lib raw1"
    using register_created_stores [of lib users0 first salt1 t1 i1 tok1 n1 e1 ut1 users1 raw1]
    by blast
  with h have "\<exists>r\<in>set users1. email r = normalize_email lib raw2" by simp
  with assms show "register lib users1 second salt2 t2 =
      (Error 400 ''Email already registered'', users1)"
    by (intro register_duplicate)
qed

theorem register_duplicate_email_witness:
  "register stub_lib [] (register_req ''Ann'' ''User@Example.com'' ''Valid1Pass'') (ustr ''$$'') 0 =
     (Created (ustr ''1'') (ustr ''1'') (ustr ''Ann'') (ustr ''user@example.com'')
        (ustr ''member''), [ann])
   \<and> register stub_lib [ann] (register_req ''Ann'' ''user@example.com'' ''Valid1Pass'')
        (ustr ''##'') 9 = (Error 400 ''Email already registered'', [ann])"
proof -
  let ?second = "register_req ''Ann'' ''user@example.com'' ''Valid1Pass''"
  have hyp: "reg_name ?second = Some (ustr ''Ann'')" "ustr ''Ann'' \<noteq> []"
      "reg_email ?second = Some (ustr ''user@example.com'')"
      "validate_email (ustr ''user@example.com'')"
      "reg_password ?second = Some (ustr ''Valid1Pass'')"
      "fst (validate_password stub_lib (ustr ''Valid1Pass''))"
      "hash_password stub_lib (ustr ''##'') (ustr ''Valid1Pass'') = Inr (ustr ''##Valid1Pass'')"
    by (simp_all add: reg_defs run_defs)
  have same: "reg_email (register_req ''Ann'' ''User@Example.com'' ''Valid1Pass'') =
        Some (ustr ''User@Example.com'')
      \<and> normalize_email stub_lib (ustr ''user@example.com'') =
        normalize_email stub_lib (ustr ''User@Example.com'')"
    by (simp add: register_req_def run_defs)
  from register_duplicate_email [OF hyp, of "[]" 9 "[]"
      "register_req ''Ann'' ''User@Example.com'' ''Valid1Pass''" "ustr ''$$''" 0
      "ustr ''1''" "ustr ''1''" "ustr ''Ann''" "ustr ''user@example.com''" "ustr ''member''"
      "[ann]" "ustr ''User@Example.com''"] register_ann same
  show ?thesis by simp
qed

text \<open>
  C9 as stated covers every e-mail with the same normalised form. After
  User@Example.com is registered, the e-mail with a leading blank has that normalised
  form, but the pattern is matched before the e-mail is trimmed and the request is
  answered with invalid e-mail format.
\<close>

theorem register_untrimmed_email_rejected:
  "register stub_lib [] (register_req ''Ann'' ''User@Example.com'' ''Valid1Pass'') (ustr ''$$'') 0 =
     (Created (ustr ''1'') (ustr ''1'') (ustr ''Ann'') (ustr ''user@example.com'')
        (ustr ''member''), [ann])
   \<and> normalize_email stub_lib (ustr '' user@example.com'') =
       normalize_email stub_lib (ustr ''User@Example.com'')
   \<and> register stub_lib [ann] (register_req ''Ann'' '' user@example.com'' ''Valid1Pass'')
        (ustr ''##'') 9 = (Error 400 ''Invalid email format'', [ann])"
  by (simp add: reg_defs run_defs)

end
